theory Spec2Isabelle
  imports Main
begin

section \<open>Strings as Python handles them\<close>

text \<open>
  Python strings are modelled as HOL strings (lists of 8-bit characters); code points
  above 255 are outside the model. The functions below are the built-in string methods
  that \<open>finna_crawler.py\<close> calls.
\<close>

text \<open>\<open>str.startswith\<close> with a one-character prefix.\<close>

fun startswith :: "string \<Rightarrow> char \<Rightarrow> bool" where
  "startswith [] p = False"
| "startswith (c # cs) p = (c = p)"

text \<open>\<open>str.isspace\<close> on a single character, for the code points below 256.\<close>

definition isspace :: "char \<Rightarrow> bool" where
  "isspace c \<longleftrightarrow> c \<in> set [CHR 0x09, CHR 0x0A, CHR 0x0B, CHR 0x0C, CHR 0x0D,
     CHR 0x1C, CHR 0x1D, CHR 0x1E, CHR 0x1F, CHR 0x20, CHR 0x85, CHR 0xA0]"

text \<open>\<open>str.rstrip()\<close>: drop the trailing whitespace.\<close>

definition rstrip :: "string \<Rightarrow> string" where
  "rstrip s = rev (dropWhile isspace (rev s))"

text \<open>\<open>str.split(sep)\<close> for a one-character separator: \<open>n\<close> separators give \<open>n + 1\<close> parts,
  and the empty string gives one empty part.\<close>

fun split :: "char \<Rightarrow> string \<Rightarrow> string list" where
  "split sep [] = [[]]"
| "split sep (c # cs) =
     (if c = sep then [] # split sep cs
      else (case split sep cs of p # ps \<Rightarrow> (c # p) # ps | [] \<Rightarrow> [[c]]))"

text \<open>\<open>s.split(sep, 1)[1]\<close>: what follows the first separator; \<open>None\<close> stands for the
  \<open>IndexError\<close> raised when there is no separator.\<close>

fun split1_second :: "char \<Rightarrow> string \<Rightarrow> string option" where
  "split1_second sep [] = None"
| "split1_second sep (c # cs) = (if c = sep then Some cs else split1_second sep cs)"

text \<open>\<open>sep.join(xs)\<close>.\<close>

fun join :: "string \<Rightarrow> string list \<Rightarrow> string" where
  "join sep [] = []"
| "join sep [x] = x"
| "join sep (x # y # ys) = x @ sep @ join sep (y # ys)"

text \<open>\<open>readline()\<close> on a text file opened with universal newlines: the text up to and
  including the first line break, which is handed over as a line feed.\<close>

fun readline :: "string \<Rightarrow> string" where
  "readline [] = []"
| "readline (c # cs) =
     (if c = CHR 0x0A \<or> c = CHR 0x0D then [CHR 0x0A] else c # readline cs)"

section \<open>The status file\<close>

text \<open>\<open>sickle.models.ResumptionToken\<close>: four attributes, each a string or \<open>None\<close>.\<close>

record ResumptionToken =
  token :: "string option"
  cursor :: "string option"
  complete_list_size :: "string option"
  expiration_date :: "string option"

datatype exn = HTTPError | OAIError | TypeError | AttributeError | IndexError | KeyError | ValueError

text \<open>
  Lines 78 to 94 of \<open>crawl_finna\<close>: the argument is the text of the status file, \<open>None\<close>
  when the file does not exist. \<open>Inl parts\<close> is the branch that logs
  "Unknown number of parts in status file" and returns.
\<close>

definition load_status :: "string option \<Rightarrow> string list + ResumptionToken option" where
  "load_status f =
     (case f of
        None \<Rightarrow> Inr None
      | Some txt \<Rightarrow>
          (let parts = split (CHR ''/'') (rstrip (readline txt)) in
           if length parts = 4 then
             Inr (Some \<lparr>token = Some (parts ! 0), cursor = Some (parts ! 1),
                        complete_list_size = Some (parts ! 2),
                        expiration_date = Some (parts ! 3)\<rparr>)
           else if length parts = 1 \<and> parts ! 0 = [] then Inr None
           else Inl parts))"

text \<open>
  Lines 147 to 157: the strings handed to \<open>sf.write\<close>, in order, for the iterator's current
  resumption token. \<open>sf.write(None)\<close> raises \<open>TypeError\<close>; only the token is written
  without a test for \<open>None\<close>.
\<close>

definition status_writes :: "ResumptionToken option \<Rightarrow> exn + string list" where
  "status_writes rt =
     (case rt of
        None \<Rightarrow> Inr []
      | Some t \<Rightarrow>
          (case token t of
             None \<Rightarrow> Inl TypeError
           | Some tok \<Rightarrow>
               Inr ([tok, ''/'']
                    @ (case cursor t of None \<Rightarrow> [] | Some c \<Rightarrow> [c])
                    @ [''/'']
                    @ (case complete_list_size t of None \<Rightarrow> [] | Some n \<Rightarrow> [n])
                    @ [''/'']
                    @ (case expiration_date t of None \<Rightarrow> [] | Some e \<Rightarrow> [e]))))"

section \<open>XML elements and namespace stripping\<close>

text \<open>
  A node of an \<open>lxml\<close> tree. An element has a tag, attributes in document order (names are
  unique), a text and children. \<open>Comment\<close> stands for a comment, a processing instruction
  or an entity reference: a node whose \<open>tag\<close> is not a string and that has no children.
  The parser of line 17 keeps such nodes, and they are children of their element like any
  other.
\<close>

datatype element =
  Element (tag: string) (attrib: "(string \<times> string) list") (el_text: "string option")
          (children: "element list")
| Comment (comment_text: string)
where
  "children (Comment c) = []"

text \<open>\<open>el.attrib[k] = v\<close>: an existing attribute keeps its place, a new one goes last.\<close>

fun attrib_set :: "string \<Rightarrow> string \<Rightarrow> (string \<times> string) list \<Rightarrow> (string \<times> string) list" where
  "attrib_set k v [] = [(k, v)]"
| "attrib_set k v ((k', v') # kvs) =
     (if k' = k then (k, v) # kvs else (k', v') # attrib_set k v kvs)"

text \<open>\<open>el.attrib.pop(k)\<close>: the attributes without \<open>k\<close>; the popped value is looked up
  by the caller, and a missing key is its \<open>KeyError\<close>.\<close>

definition attrib_pop :: "string \<Rightarrow> (string \<times> string) list \<Rightarrow> (string \<times> string) list" where
  "attrib_pop k kvs = filter (\<lambda>kv. fst kv \<noteq> k) kvs"

text \<open>
  Lines 47 to 49: the loop over the snapshot \<open>el.attrib.keys()\<close>, renaming in place. The
  result is the exception raised, if any, and the attributes as the loop leaves them. In
  \<open>el.attrib[an.split('}', 1)[1]] = el.attrib.pop(an)\<close> the right-hand side runs first, so
  the attribute is already popped when the split raises.
\<close>

fun strip_attribs :: "string list \<Rightarrow> (string \<times> string) list \<Rightarrow> exn option \<times> (string \<times> string) list" where
  "strip_attribs [] kvs = (None, kvs)"
| "strip_attribs (an # ans) kvs =
     (if startswith an (CHR ''{'') then
        (case map_of kvs an of
           None \<Rightarrow> (Some KeyError, kvs)
         | Some v \<Rightarrow>
             (case split1_second (CHR ''}'') an of
                None \<Rightarrow> (Some IndexError, attrib_pop an kvs)
              | Some local \<Rightarrow> strip_attribs ans (attrib_set local v (attrib_pop an kvs))))
      else strip_attribs ans kvs)"

text \<open>Lines 44 and 45.\<close>

definition strip_tag :: "string \<Rightarrow> exn + string" where
  "strip_tag t =
     (if startswith t (CHR ''{'') then
        (case split1_second (CHR ''}'') t of None \<Rightarrow> Inl IndexError | Some local \<Rightarrow> Inr local)
      else Inr t)"

text \<open>
  \<open>strip_namespaces\<close> (lines 41 to 51) visits the nodes that \<open>doc.getiterator()\<close> yields, the
  tree in document order, and rewrites each element in place. The result is the exception
  raised, if any, and the tree as the call leaves it: the nodes before the one that raises
  are rewritten, the others are not. On a comment, a processing instruction or an entity
  reference \<open>el.tag.startswith\<close> raises \<open>AttributeError\<close> (line 44).
  \<open>etree.cleanup_namespaces\<close> only drops namespace declarations, which the model does not
  hold.
\<close>

fun strip_namespaces :: "element \<Rightarrow> exn option \<times> element"
  and strip_namespaces_list :: "element list \<Rightarrow> exn option \<times> element list" where
  "strip_namespaces (Comment c) = (Some AttributeError, Comment c)"
| "strip_namespaces (Element t a x cs) =
     (case strip_tag t of
        Inl e \<Rightarrow> (Some e, Element t a x cs)
      | Inr t' \<Rightarrow>
          (case strip_attribs (map fst a) a of
             (Some e, a') \<Rightarrow> (Some e, Element t' a' x cs)
           | (None, a') \<Rightarrow>
               (case strip_namespaces_list cs of
                  (eo, cs') \<Rightarrow> (eo, Element t' a' x cs'))))"
| "strip_namespaces_list [] = (None, [])"
| "strip_namespaces_list (c # cs) =
     (case strip_namespaces c of
        (Some e, c') \<Rightarrow> (Some e, c' # cs)
      | (None, c') \<Rightarrow>
          (case strip_namespaces_list cs of
             (eo, cs') \<Rightarrow> (eo, c' # cs')))"

section \<open>Records, configuration and the collaborators\<close>

text \<open>
  \<open>sickle.models.Record\<close> as \<open>crawl_finna\<close> reads it: the header's identifier and datestamp
  (taken as strings), the dictionary \<open>record.metadata\<close> (tag name to the list of texts, a
  text may be \<open>None\<close>), the element \<open>record.xml\<close> and the namespace prefix
  \<open>record._oai_namespace\<close>. A record whose header says it is deleted is given no
  \<open>metadata\<close> attribute by \<open>sickle\<close>: \<open>metadata\<close> is \<open>None\<close> then, and reading it raises
  \<open>AttributeError\<close>.
\<close>

record Record =
  header_identifier :: string
  header_datestamp :: string
  metadata :: "(string \<times> string option list) list option"
  xml :: element
  oai_namespace :: string

text \<open>The parameters of \<open>crawl_finna\<close>. The three paths are taken to name three different
  files; \<open>set_opt\<close> is the parameter \<open>set\<close>.\<close>

record config =
  metadata_prefix :: "string option"
  status_file :: string
  metadata_output :: "string option"
  record_output :: "string option"
  set_opt :: "string option"
  strip_xml :: bool
  full_record :: bool

datatype request = ListRecords string "string option" | Resumption "string option"

text \<open>
  Modelled from the spec: the Transport Client (the \<open>sickle\<close> library, which is not part of
  the repository). \<open>server\<close> answers one list request with a page, its items and the
  continuation state, or fails; \<open>HTTPError\<close> is the non-retryable transport failure and
  \<open>OAIError\<close> a protocol error. \<open>list_metadata_formats\<close> and \<open>list_sets\<close> are the discovery
  operation. The other fields are library functions the driver calls: \<open>csv_row\<close> is the line
  \<open>csv.writer.writerow\<close> produces, \<open>tostring\<close> is \<open>ElementTree.tostring\<close>, and \<open>py_int\<close> is the
  built-in \<open>int\<close> on a string (\<open>None\<close> for its \<open>ValueError\<close>). \<open>holds_until_close\<close> says of
  a path whether the handle \<open>xopen\<close> opens for it keeps what is written in its compressor
  until the handle is closed, so that \<open>flush\<close> hands nothing to the operating system: the
  \<open>bz2\<close> and \<open>xz\<close> handles of the standard library do, a plain file does not.
\<close>

record env =
  server :: "request \<Rightarrow> exn + (Record list \<times> ResumptionToken option)"
  list_metadata_formats :: "exn + string list"
  list_sets :: "exn + string list"
  csv_row :: "string list \<Rightarrow> string"
  tostring :: "element \<Rightarrow> string"
  py_int :: "string \<Rightarrow> int option"
  holds_until_close :: "string \<Rightarrow> bool"

section \<open>What a run does: events\<close>

datatype file_id = StatusF | MetadataF | RecordF

text \<open>
  The run of \<open>crawl_finna\<close> is the list of its effects in program order: output and log
  lines, requests to the server, the records the iterator hands to the loop body, and the
  operations on the three files. \<open>OpenW\<close> is the built-in \<open>open\<close> for writing, which the
  status file gets; \<open>XopenW\<close> and \<open>XopenA\<close> are \<open>xopen\<close> for writing and for appending, which
  the sinks get, with what \<open>holds_until_close\<close> says of the path.
\<close>

datatype event =
    Print string
  | LogError "string list"
  | LogWarning "string option" "string option"
  | LogException exn
  | Request request
  | Yield Record
  | OpenW file_id
  | XopenW file_id bool
  | XopenA file_id bool
  | Write file_id string
  | Flush file_id
  | Fsync file_id
  | Truncate0 file_id
  | Seek0 file_id
  | Close file_id

text \<open>One statement sequence after another; an exception in the first skips the second.\<close>

definition andthen :: "event list \<times> exn option \<Rightarrow> event list \<times> exn option \<Rightarrow> event list \<times> exn option" where
  "andthen a b = (case snd a of Some e \<Rightarrow> a | None \<Rightarrow> (fst a @ fst b, snd b))"

text \<open>Lines 117 to 120: \<open>'|'.join(filter(lambda x: x is not None, record.metadata.get(k, [])))\<close>.\<close>

fun drop_none :: "string option list \<Rightarrow> string list" where
  "drop_none [] = []"
| "drop_none (None # xs) = drop_none xs"
| "drop_none (Some s # xs) = s # drop_none xs"

definition joined :: "(string \<times> string option list) list \<Rightarrow> string \<Rightarrow> string" where
  "joined md k = join ''|'' (drop_none (case map_of md k of None \<Rightarrow> [] | Some v \<Rightarrow> v))"

definition metadata_row :: "Record \<Rightarrow> (string \<times> string option list) list \<Rightarrow> string list" where
  "metadata_row r md = [header_identifier r, header_datestamp r, joined md ''identifier'',
     joined md ''creator'', joined md ''title'', joined md ''subject'']"

text \<open>Lines 116 to 130. Line 117 is the first to read \<open>record.metadata\<close>.\<close>

definition metadata_events :: "env \<Rightarrow> config \<Rightarrow> Record \<Rightarrow> event list \<times> exn option" where
  "metadata_events env cfg r =
     (if metadata_output cfg \<noteq> None then
        (case metadata r of
           None \<Rightarrow> ([], Some AttributeError)
         | Some md \<Rightarrow>
             ([Write MetadataF (csv_row env (metadata_row r md)), Flush MetadataF,
               Fsync MetadataF], None))
      else ([], None))"

text \<open>\<open>elem.find('.//' + t)\<close>: the first descendant element with tag \<open>t\<close>, in document order.\<close>

fun find_descendant :: "string \<Rightarrow> element list \<Rightarrow> element option" where
  "find_descendant t [] = None"
| "find_descendant t (Comment c # rest) = find_descendant t rest"
| "find_descendant t (Element t' a x cs # rest) =
     (if t' = t then Some (Element t' a x cs)
      else (case find_descendant t cs of
              Some e \<Rightarrow> Some e
            | None \<Rightarrow> find_descendant t rest))"

text \<open>Lines 135 to 141: the element written for a record that has no \<open>metadata\<close> entry, and its
  text once the namespaces are stripped when that is asked for.\<close>

definition record_element :: "config \<Rightarrow> Record \<Rightarrow> exn + element" where
  "record_element cfg r =
     (if full_record cfg then Inr (xml r)
      else (case find_descendant (oai_namespace r @ ''metadata'') (children (xml r)) of
              None \<Rightarrow> Inl TypeError
            | Some m \<Rightarrow> (case children m of [] \<Rightarrow> Inl IndexError | c # _ \<Rightarrow> Inr c)))"

definition element_text :: "env \<Rightarrow> config \<Rightarrow> element \<Rightarrow> exn + string" where
  "element_text env cfg elem =
     (if strip_xml cfg then
        (case strip_namespaces elem of
           (Some e, elem') \<Rightarrow> Inl e
         | (None, elem') \<Rightarrow> Inr (tostring env elem'))
      else Inr (tostring env elem))"

text \<open>
  Lines 132 to 141: the text written for one record, or the exception raised on the way.
  With \<open>full_record\<close> the test of line 132 stops at its first operand; without it the test
  reads \<open>record.metadata\<close>.
\<close>

definition record_payload :: "env \<Rightarrow> config \<Rightarrow> Record \<Rightarrow> exn + string" where
  "record_payload env cfg r =
     (if full_record cfg then
        (case record_element cfg r of Inl e \<Rightarrow> Inl e | Inr elem \<Rightarrow> element_text env cfg elem)
      else
        (case metadata r of
           None \<Rightarrow> Inl AttributeError
         | Some md \<Rightarrow>
             (case map_of md ''metadata'' of
                Some [] \<Rightarrow> Inl IndexError
              | Some (None # _) \<Rightarrow> Inl TypeError
              | Some (Some s # _) \<Rightarrow> Inr s
              | None \<Rightarrow>
                  (case record_element cfg r of
                     Inl e \<Rightarrow> Inl e
                   | Inr elem \<Rightarrow> element_text env cfg elem))))"

text \<open>Lines 131 to 144.\<close>

definition record_events :: "env \<Rightarrow> config \<Rightarrow> Record \<Rightarrow> event list \<times> exn option" where
  "record_events env cfg r =
     (if record_output cfg \<noteq> None then
        (case record_payload env cfg r of
           Inl e \<Rightarrow> ([], Some e)
         | Inr s \<Rightarrow> ([Write RecordF s, Write RecordF [CHR 0x0A], Flush RecordF, Fsync RecordF], None))
      else ([], None))"

text \<open>Lines 145 to 159, for the iterator's current resumption token.\<close>

definition checkpoint_events :: "ResumptionToken option \<Rightarrow> event list \<times> exn option" where
  "checkpoint_events rt =
     (case status_writes rt of
        Inl e \<Rightarrow> ([Truncate0 StatusF, Seek0 StatusF], Some e)
      | Inr ws \<Rightarrow>
          ([Truncate0 StatusF, Seek0 StatusF] @ map (Write StatusF) ws
           @ [Flush StatusF, Fsync StatusF], None))"

text \<open>The body of the loop, lines 116 to 159, for the record the iterator has just handed over.\<close>

definition process_item :: "env \<Rightarrow> config \<Rightarrow> ResumptionToken option \<Rightarrow> Record \<Rightarrow> event list \<times> exn option" where
  "process_item env cfg rt r =
     andthen ([Yield r], None)
       (andthen (metadata_events env cfg r)
          (andthen (record_events env cfg r) (checkpoint_events rt)))"

section \<open>The streaming loop\<close>

datatype outcome = Completed | Raised exn | Unfinished

text \<open>
  Modelled from the spec: the iterator of the Transport Client asks for the next page until
  "the protocol signals no further continuation token". In \<open>sickle\<close> this is the test
  \<open>self.resumption_token and self.resumption_token.token\<close>: the page carries a resumption
  token whose text is neither \<open>None\<close> nor empty.
\<close>

definition has_next_page :: "ResumptionToken option \<Rightarrow> bool" where
  "has_next_page rt =
     (case rt of None \<Rightarrow> False
      | Some t \<Rightarrow> (case token t of None \<Rightarrow> False | Some tok \<Rightarrow> tok \<noteq> []))"

text \<open>
  The loop of line 114 together with the iterator it drives. The iterator holds the items
  of the current page that are still to come and the page's resumption token; when the
  page is used up it requests the next one with that token, and stops when there is none.
  Each unit of fuel pays for one item or one request; \<open>Unfinished\<close> is the run that is still
  going when the fuel is spent.
\<close>

fun stream :: "nat \<Rightarrow> env \<Rightarrow> config \<Rightarrow> Record list \<Rightarrow> ResumptionToken option \<Rightarrow> event list \<times> outcome" where
  "stream 0 env cfg its rt = ([], Unfinished)"
| "stream (Suc n) env cfg [] rt =
     (if has_next_page rt then
        (case server env (Resumption (token (the rt))) of
           Inl e \<Rightarrow> ([Request (Resumption (token (the rt)))], Raised e)
         | Inr page \<Rightarrow>
             (case stream n env cfg (fst page) (snd page) of
                (evs, out) \<Rightarrow> (Request (Resumption (token (the rt))) # evs, out)))
      else ([], Completed))"
| "stream (Suc n) env cfg (r # rs) rt =
     (case process_item env cfg rt r of
        (evs, Some e) \<Rightarrow> (evs, Raised e)
      | (evs, None) \<Rightarrow>
          (case stream n env cfg rs rt of (evs', out) \<Rightarrow> (evs @ evs', out)))"

section \<open>The driver\<close>

text \<open>Lines 103 to 109: the first request and, when resuming, the repositioning.\<close>

definition open_listing :: "env \<Rightarrow> config \<Rightarrow> string \<Rightarrow> ResumptionToken option
    \<Rightarrow> event list \<times> (exn + (Record list \<times> ResumptionToken option))" where
  "open_listing env cfg p loaded =
     (case server env (ListRecords p (set_opt cfg)) of
        Inl e \<Rightarrow> ([Request (ListRecords p (set_opt cfg))], Inl e)
      | Inr page \<Rightarrow>
          (case loaded of
             None \<Rightarrow> ([Request (ListRecords p (set_opt cfg))], Inr page)
           | Some saved \<Rightarrow>
               (case snd page of
                  None \<Rightarrow> ([Request (ListRecords p (set_opt cfg))], Inl AttributeError)
                | Some fresh \<Rightarrow>
                    ([Request (ListRecords p (set_opt cfg))]
                     @ (if complete_list_size fresh \<noteq> complete_list_size saved
                        then [LogWarning (complete_list_size saved) (complete_list_size fresh)]
                        else [])
                     @ [Request (Resumption (token saved))],
                     server env (Resumption (token saved))))))"

text \<open>Lines 114 and 115: the arguments of \<open>tqdm\<close>, evaluated once before the first item.\<close>

definition tqdm_args :: "env \<Rightarrow> ResumptionToken option \<Rightarrow> exn option" where
  "tqdm_args env rt =
     (case rt of
        None \<Rightarrow> Some AttributeError
      | Some t \<Rightarrow>
          (case cursor t of
             None \<Rightarrow> Some TypeError
           | Some c \<Rightarrow>
               (case py_int env c of
                  None \<Rightarrow> Some ValueError
                | Some i \<Rightarrow>
                    (case complete_list_size t of
                       None \<Rightarrow> Some TypeError
                     | Some n \<Rightarrow>
                         (case py_int env n of None \<Rightarrow> Some ValueError | Some j \<Rightarrow> None)))))"

text \<open>The body of the \<open>try\<close>, lines 103 to 159.\<close>

definition harvest :: "nat \<Rightarrow> env \<Rightarrow> config \<Rightarrow> string \<Rightarrow> ResumptionToken option \<Rightarrow> event list \<times> outcome" where
  "harvest fuel env cfg p loaded =
     (case open_listing env cfg p loaded of
        (evs, Inl e) \<Rightarrow> (evs, Raised e)
      | (evs, Inr page) \<Rightarrow>
          (case tqdm_args env (snd page) of
             Some e \<Rightarrow> (evs, Raised e)
           | None \<Rightarrow>
               (case stream fuel env cfg (fst page) (snd page) of
                  (evs', out) \<Rightarrow> (evs @ evs', out))))"

section \<open>Files\<close>

text \<open>
  A file has the text the operating system holds for it (\<open>None\<close>: the file does not exist),
  the text written through the open handle and not yet flushed, the text a compressing
  handle has taken and keeps until it is closed, and the text on stable storage as of the
  last \<open>fsync\<close>. \<open>holding\<close> says that the open handle is of the kind that keeps its text. The
  texts are what a reader of the file gets: how a codec lays them out in bytes is outside
  the model.
\<close>

record file_state =
  content :: "string option"
  pending :: string
  held :: string
  durable :: "string option"
  holding :: bool

type_synonym disk = "file_id \<Rightarrow> file_state"

text \<open>
  \<open>flush\<close> on the handle of file \<open>f\<close>. The status file is opened with the built-in \<open>open\<close>,
  whose handle hands its text to the operating system; so does a sink's handle unless it
  is of the kind that keeps its text.
\<close>

definition flush_file :: "file_id \<Rightarrow> file_state \<Rightarrow> file_state" where
  "flush_file f s =
     (if f \<noteq> StatusF \<and> holding s then s\<lparr>pending := [], held := held s @ pending s\<rparr>
      else s\<lparr>content := Some ((case content s of None \<Rightarrow> [] | Some c \<Rightarrow> c) @ pending s),
             pending := []\<rparr>)"

text \<open>Closing a handle writes out whatever it still has.\<close>

definition close_file :: "file_state \<Rightarrow> file_state" where
  "close_file s =
     s\<lparr>content := Some ((case content s of None \<Rightarrow> [] | Some c \<Rightarrow> c) @ held s @ pending s),
       pending := [], held := []\<rparr>"

text \<open>
  The effect of one event on the files. Opening for writing creates or empties the file;
  opening for appending creates it when absent. Events happen on open handles only, so a
  flushed file exists. \<open>truncate(0)\<close> and \<open>seek(0)\<close> flush the handle first. Every write to
  the status file follows a \<open>truncate(0)\<close> and a \<open>seek(0)\<close>, so it lands at the end of an
  empty file, like the writes of the two append-mode sinks.
\<close>

fun apply_event :: "event \<Rightarrow> disk \<Rightarrow> disk" where
  "apply_event (OpenW f) d =
     d(f := (d f)\<lparr>content := Some [], pending := [], held := [], holding := False\<rparr>)"
| "apply_event (XopenW f h) d =
     d(f := (d f)\<lparr>content := Some [], pending := [], held := [], holding := h\<rparr>)"
| "apply_event (XopenA f h) d =
     d(f := (d f)\<lparr>content := Some (case content (d f) of None \<Rightarrow> [] | Some c \<Rightarrow> c),
                  pending := [], held := [], holding := h\<rparr>)"
| "apply_event (Write f s) d = d(f := (d f)\<lparr>pending := pending (d f) @ s\<rparr>)"
| "apply_event (Flush f) d = d(f := flush_file f (d f))"
| "apply_event (Fsync f) d = d(f := (d f)\<lparr>durable := content (d f)\<rparr>)"
| "apply_event (Truncate0 f) d = d(f := (flush_file f (d f))\<lparr>content := Some []\<rparr>)"
| "apply_event (Seek0 f) d = d(f := flush_file f (d f))"
| "apply_event (Close f) d = d(f := close_file (d f))"
| "apply_event (Print s) d = d"
| "apply_event (LogError ps) d = d"
| "apply_event (LogWarning a b) d = d"
| "apply_event (LogException e) d = d"
| "apply_event (Request q) d = d"
| "apply_event (Yield r) d = d"

definition replay :: "event list \<Rightarrow> disk \<Rightarrow> disk" where
  "replay evs d = fold apply_event evs d"

text \<open>What is left of the files when the process is killed: the text still in a handle is
  lost, unflushed or kept by a compressor.\<close>

definition after_kill :: "disk \<Rightarrow> disk" where
  "after_kill d = (\<lambda>f. (d f)\<lparr>pending := [], held := []\<rparr>)"

section \<open>The command\<close>

datatype exit = Returned | Crashed exn | OutOfFuel

definition header_row :: "string list" where
  "header_row = [''id'', ''timestamp'', ''id2'', ''creator'', ''title'', ''subjects'']"

text \<open>What \<open>holds_until_close\<close> says of a sink's path.\<close>

definition sink_holds :: "env \<Rightarrow> string option \<Rightarrow> bool" where
  "sink_holds env path = (case path of None \<Rightarrow> False | Some p \<Rightarrow> holds_until_close env p)"

text \<open>Lines 95 to 98, once \<open>metadata_output\<close> is known to be a path.\<close>

definition header_events :: "env \<Rightarrow> config \<Rightarrow> disk \<Rightarrow> event list" where
  "header_events env cfg d =
     (if content (d MetadataF) = None
      then [XopenW MetadataF (sink_holds env (metadata_output cfg)),
            Write MetadataF (csv_row env header_row), Close MetadataF]
      else [])"

text \<open>Lines 99 to 101, and the closing of the same files when the \<open>with\<close> block is left.\<close>

definition open_events :: "env \<Rightarrow> config \<Rightarrow> event list" where
  "open_events env cfg =
     [OpenW StatusF]
     @ (if metadata_output cfg \<noteq> None
        then [XopenA MetadataF (sink_holds env (metadata_output cfg))] else [])
     @ (if record_output cfg \<noteq> None
        then [XopenA RecordF (sink_holds env (record_output cfg))] else [])"

definition close_events :: "config \<Rightarrow> event list" where
  "close_events cfg =
     (if record_output cfg \<noteq> None then [Close RecordF] else [])
     @ (if metadata_output cfg \<noteq> None then [Close MetadataF] else [])
     @ [Close StatusF]"

text \<open>
  \<open>crawl_finna\<close>, lines 64 to 162, run on the files \<open>d\<close>. \<open>exists(metadata_output)\<close> on line 95
  raises \<open>TypeError\<close> when \<open>metadata_output\<close> is \<open>None\<close>. Only \<open>HTTPError\<close> is caught (line 160);
  line 162 runs after the \<open>try\<close> statement, whether it completed or caught the error.
\<close>

definition crawl_finna :: "nat \<Rightarrow> env \<Rightarrow> config \<Rightarrow> disk \<Rightarrow> event list \<times> exit" where
  "crawl_finna fuel env cfg d =
     (case metadata_prefix cfg of
        None \<Rightarrow>
          (case list_metadata_formats env of
             Inl e \<Rightarrow> ([], Crashed e)
           | Inr fs \<Rightarrow>
               (case list_sets env of
                  Inl e \<Rightarrow>
                    ([Print (''Available prefixes (specify with -p or --metadata-prefix): ''
                             @ join '', '' fs)], Crashed e)
                | Inr ss \<Rightarrow>
                    ([Print (''Available prefixes (specify with -p or --metadata-prefix): ''
                             @ join '', '' fs),
                      Print (''Available sets (optionally specify with -s or --set): ''
                             @ join '', '' ss)], Returned)))
      | Some p \<Rightarrow>
          if metadata_output cfg = None \<and> record_output cfg = None then
            ([Print ''Neither metadata nor record output file defined, crawl would write out nothing.''],
             Returned)
          else
            (case load_status (content (d StatusF)) of
               Inl parts \<Rightarrow> ([LogError parts], Returned)
             | Inr loaded \<Rightarrow>
                 if metadata_output cfg = None then ([], Crashed TypeError)
                 else
                   (case harvest fuel env cfg p loaded of
                      (evs, Completed) \<Rightarrow>
                        (header_events env cfg d @ open_events env cfg @ evs
                         @ [Truncate0 StatusF] @ close_events cfg, Returned)
                    | (evs, Raised e) \<Rightarrow>
                        if e = HTTPError then
                          (header_events env cfg d @ open_events env cfg @ evs
                           @ [LogException e, Truncate0 StatusF] @ close_events cfg, Returned)
                        else (header_events env cfg d @ open_events env cfg @ evs @ close_events cfg,
                              Crashed e)
                    | (evs, Unfinished) \<Rightarrow>
                        (header_events env cfg d @ open_events env cfg @ evs, OutOfFuel))))"

section \<open>Vocabulary of the properties\<close>

subsection \<open>Element trees that \<open>lxml\<close> can hold\<close>

text \<open>
  \<open>lxml\<close> accepts a tag or attribute name either without a namespace or in the form
  \<open>{namespace}local\<close>, where the local part is an XML name and so does not begin with a
  brace; the attribute names of one element are distinct.
\<close>

definition valid_name :: "string \<Rightarrow> bool" where
  "valid_name s \<longleftrightarrow>
     (startswith s (CHR ''{'') \<longrightarrow>
        (case split1_second (CHR ''}'') s of None \<Rightarrow> False | Some l \<Rightarrow> \<not> startswith l (CHR ''{'')))"

fun valid_tree :: "element \<Rightarrow> bool" where
  "valid_tree (Comment c) = True"
| "valid_tree (Element t a x cs) =
     (valid_name t \<and> (\<forall>k \<in> set (map fst a). valid_name k) \<and> distinct (map fst a)
      \<and> (\<forall>c \<in> set cs. valid_tree c))"

text \<open>No tag and no attribute name of the tree starts with a brace.\<close>

fun no_prefix :: "element \<Rightarrow> bool" where
  "no_prefix (Comment c) = True"
| "no_prefix (Element t a x cs) =
     (\<not> startswith t (CHR ''{'') \<and> (\<forall>k \<in> set (map fst a). \<not> startswith k (CHR ''{''))
      \<and> (\<forall>c \<in> set cs. no_prefix c))"

text \<open>Every node of the tree is an element: there is no comment, processing instruction or
  entity reference in it.\<close>

fun only_elements :: "element \<Rightarrow> bool" where
  "only_elements (Comment c) = False"
| "only_elements (Element t a x cs) = (\<forall>c \<in> set cs. only_elements c)"

definition demo_tree :: element where
  "demo_tree =
     Element ''{http://www.openarchives.org/OAI/2.0/}record''
       [(''{http://www.w3.org/XML/1998/namespace}lang'', ''fi''), (''id'', ''1'')] None
       [Element ''{http://purl.org/dc/elements/1.1/}title'' [] (Some ''Kalevala'') []]"

definition demo_tree_stripped :: element where
  "demo_tree_stripped =
     Element ''record'' [(''id'', ''1''), (''lang'', ''fi'')] None
       [Element ''title'' [] (Some ''Kalevala'') []]"

text \<open>The tree of \<open><a xmlns="urn:d"><!-- c --><b/></a>\<close>, and what one call leaves of it.\<close>

definition commented_tree :: element where
  "commented_tree =
     Element ''{urn:d}a'' [] None [Comment '' c '', Element ''{urn:d}b'' [] None []]"

definition commented_tree_left :: element where
  "commented_tree_left =
     Element ''a'' [] None [Comment '' c '', Element ''{urn:d}b'' [] None []]"

subsection \<open>Saving and loading the status file\<close>

text \<open>The text a field of the resumption token contributes to the status line.\<close>

definition field_text :: "string option \<Rightarrow> string" where
  "field_text x = (case x of None \<Rightarrow> [] | Some s \<Rightarrow> s)"

text \<open>A field that holds no slash and no line break.\<close>

definition plain_field :: "string \<Rightarrow> bool" where
  "plain_field s \<longleftrightarrow> CHR ''/'' \<notin> set s \<and> CHR 0x0A \<notin> set s \<and> CHR 0x0D \<notin> set s"

subsection \<open>Events and files\<close>

text \<open>The file an event operates on.\<close>

fun event_file :: "event \<Rightarrow> file_id option" where
  "event_file (OpenW f) = Some f"
| "event_file (XopenW f h) = Some f"
| "event_file (XopenA f h) = Some f"
| "event_file (Write f s) = Some f"
| "event_file (Flush f) = Some f"
| "event_file (Fsync f) = Some f"
| "event_file (Truncate0 f) = Some f"
| "event_file (Seek0 f) = Some f"
| "event_file (Close f) = Some f"
| "event_file (Print s) = None"
| "event_file (LogError ps) = None"
| "event_file (LogWarning a b) = None"
| "event_file (LogException e) = None"
| "event_file (Request q) = None"
| "event_file (Yield r) = None"

subsection \<open>A small repository to run against\<close>

definition demo_record :: "string \<Rightarrow> Record" where
  "demo_record n = \<lparr>header_identifier = n, header_datestamp = ''2020-01-01'',
     metadata = Some [(''title'', [Some n])], xml = Element n [] None [],
     oai_namespace = ''{oai}''\<rparr>"

definition demo_token :: "string \<Rightarrow> string \<Rightarrow> ResumptionToken" where
  "demo_token t c = \<lparr>token = Some t, cursor = Some c, complete_list_size = Some ''4'', expiration_date = None\<rparr>"

fun demo_server :: "request \<Rightarrow> exn + (Record list \<times> ResumptionToken option)" where
  "demo_server (ListRecords p s) = Inr ([demo_record ''r1'', demo_record ''r2''], Some (demo_token ''t1'' ''0''))"
| "demo_server (Resumption tok) =
     (if tok = Some ''t1'' then Inr ([demo_record ''r3''], Some (demo_token ''t2'' ''2''))
      else if tok = Some ''t2'' then Inr ([demo_record ''r4''], None)
      else Inl OAIError)"

definition demo_int :: "string \<Rightarrow> int option" where
  "demo_int s = (if s \<noteq> [] \<and> list_all (\<lambda>c. c \<in> set ''0123456789'') s then Some (int (length s)) else None)"

text \<open>\<open>str.endswith\<close>.\<close>

definition endswith :: "string \<Rightarrow> string \<Rightarrow> bool" where
  "endswith s suffix \<longleftrightarrow>
     length suffix \<le> length s \<and> drop (length s - length suffix) s = suffix"

definition demo_env :: env where
  "demo_env = \<lparr>server = demo_server, list_metadata_formats = Inr [''oai_dc''], list_sets = Inr [],
     csv_row = (\<lambda>r. join [CHR 0x09] r @ [CHR 0x0D, CHR 0x0A]), tostring = tag,
     py_int = demo_int,
     holds_until_close = (\<lambda>p. endswith p ''.bz2'' \<or> endswith p ''.xz'')\<rparr>"

definition demo_cfg :: config where
  "demo_cfg = \<lparr>metadata_prefix = Some ''oai_dc'', status_file = ''status'', metadata_output = Some ''m.tsv'',
     record_output = Some ''r.xml'', set_opt = None, strip_xml = True, full_record = True\<rparr>"

text \<open>A file that is closed: it has a text, or does not exist, and all of it is on stable
  storage.\<close>

definition closed_file :: "string option \<Rightarrow> file_state" where
  "closed_file txt = \<lparr>content = txt, pending = [], held = [], durable = txt, holding = False\<rparr>"

definition fresh_disk :: disk where
  "fresh_disk = (\<lambda>f. closed_file None)"

definition slash_token :: ResumptionToken where
  "slash_token = \<lparr>token = Some ''a/b'', cursor = Some ''50'', complete_list_size = Some ''500'', expiration_date = None\<rparr>"

definition sparse_token :: ResumptionToken where
  "sparse_token = \<lparr>token = Some ''abc123'', cursor = None, complete_list_size = None, expiration_date = None\<rparr>"

definition blank_status_disk :: disk where
  "blank_status_disk = fresh_disk(StatusF := closed_file (Some '' ''))"

definition resume_token :: ResumptionToken where
  "resume_token = \<lparr>token = Some ''abc123'', cursor = Some ''50'', complete_list_size = Some ''500'',
     expiration_date = None\<rparr>"

definition corrupt_status_disk :: disk where
  "corrupt_status_disk = fresh_disk(StatusF := closed_file (Some ''abc123/50''))"

subsection \<open>Kill points and further runs\<close>

text \<open>The status file is empty and nothing is waiting in its handle.\<close>

definition status_empty :: "disk \<Rightarrow> bool" where
  "status_empty d \<longleftrightarrow>
     content (d StatusF) = Some [] \<and> pending (d StatusF) = [] \<and> held (d StatusF) = []"

text \<open>The events of a run up to and including the \<open>k\<close>-th sync of the status file: the commit
  point of the \<open>k\<close>-th record.\<close>

fun upto_commit :: "nat \<Rightarrow> event list \<Rightarrow> event list" where
  "upto_commit 0 evs = []"
| "upto_commit (Suc k) [] = []"
| "upto_commit (Suc k) (e # es) =
     e # (if e = Fsync StatusF then upto_commit k es else upto_commit (Suc k) es)"

definition text_lines :: "string list \<Rightarrow> string" where
  "text_lines ls = concat (map (\<lambda>l. l @ [CHR 0x0A]) ls)"

text \<open>Files left by an earlier run: the sinks exist and the status file holds a checkpoint.\<close>

definition resume_disk :: disk where
  "resume_disk = (\<lambda>f. closed_file (Some []))(StatusF := closed_file (Some ''abc123/50/500/''))"

text \<open>Files left by an earlier run against a list of five records: the checkpoint names the
  second page, or the third and last.\<close>

definition drift_disk :: disk where
  "drift_disk = (\<lambda>f. closed_file (Some []))(StatusF := closed_file (Some ''t1/0/5/''))"

definition last_page_disk :: disk where
  "last_page_disk = (\<lambda>f. closed_file (Some []))(StatusF := closed_file (Some ''t2/2/5/''))"

text \<open>The files after the run on the small repository was killed at the first commit point.\<close>

definition killed_disk :: disk where
  "killed_disk =
     after_kill (replay (upto_commit 1 (fst (crawl_finna 20 demo_env demo_cfg fresh_disk))) fresh_disk)"

text \<open>The small repository with a second page that cannot be fetched.\<close>

fun abort_server :: "request \<Rightarrow> exn + (Record list \<times> ResumptionToken option)" where
  "abort_server (ListRecords p s) = demo_server (ListRecords p s)"
| "abort_server (Resumption tok) =
     (if tok = Some ''t1'' then Inl HTTPError else demo_server (Resumption tok))"

definition abort_env :: env where
  "abort_env = demo_env\<lparr>server := abort_server\<rparr>"

definition record_only_cfg :: config where
  "record_only_cfg = demo_cfg\<lparr>metadata_output := None\<rparr>"

text \<open>The small repository with sinks that \<open>xopen\<close> compresses with \<open>bz2\<close>.\<close>

definition bz2_cfg :: config where
  "bz2_cfg = demo_cfg\<lparr>metadata_output := Some ''m.tsv.bz2'', record_output := Some ''r.xml.bz2''\<rparr>"

text \<open>The files at the \<open>k\<close>-th commit point of the run on the small repository with the
  configuration \<open>cfg\<close>, started without any file.\<close>

definition commit_disk :: "config \<Rightarrow> nat \<Rightarrow> disk" where
  "commit_disk cfg k =
     replay (upto_commit k (fst (crawl_finna 20 demo_env cfg fresh_disk))) fresh_disk"

definition missing_status_disk :: disk where
  "missing_status_disk = fresh_disk(StatusF := closed_file None)"

definition empty_status_disk :: disk where
  "empty_status_disk = fresh_disk(StatusF := (closed_file None)\<lparr>content := Some []\<rparr>)"

definition loaded_token :: "string \<Rightarrow> string \<Rightarrow> string \<Rightarrow> ResumptionToken" where
  "loaded_token t c n = \<lparr>token = Some t, cursor = Some c, complete_list_size = Some n,
     expiration_date = Some []\<rparr>"

section \<open>Namespace stripping\<close>

lemma names_attrib_set:
  "map fst (attrib_set k v kvs) = (if k \<in> set (map fst kvs) then map fst kvs else map fst kvs @ [k])"
  by (induction kvs) (force simp: image_iff)+

lemma keys_attrib_set: "fst ` set (attrib_set k v kvs) = insert k (fst ` set kvs)"
proof -
  have "set (map fst (attrib_set k v kvs)) = insert k (set (map fst kvs))"
    unfolding names_attrib_set by auto
  then show ?thesis by simp
qed

lemma keys_attrib_pop: "fst ` set (attrib_pop k kvs) = fst ` set kvs - {k}"
  by (auto simp: attrib_pop_def)

lemma strip_attribs_plain:
  "\<forall>an \<in> set ans. \<not> startswith an (CHR ''{'') \<Longrightarrow> strip_attribs ans kvs = (None, kvs)"
  by (induction ans arbitrary: kvs) auto

lemma strip_attribs_keeps_plain:
  assumes "k \<in> fst ` set kvs" and "\<not> startswith k (CHR ''{'')"
  shows "k \<in> fst ` set (snd (strip_attribs ans kvs))"
  using assms
proof (induction ans arbitrary: kvs)
  case Nil
  then show ?case by simp
next
  case (Cons an ans)
  show ?case
  proof (cases "startswith an (CHR ''{'')")
    case False
    with Cons show ?thesis by simp
  next
    case True
    with Cons.prems(2) have ne: "k \<noteq> an" by auto
    show ?thesis
    proof (cases "map_of kvs an")
      case None
      with True Cons.prems(1) show ?thesis by simp
    next
      case (Some v)
      show ?thesis
      proof (cases "split1_second (CHR ''}'') an")
        case None
        with True Some Cons.prems(1) ne show ?thesis by (simp add: keys_attrib_pop)
      next
        case l: (Some l)
        from Cons.prems(1) ne have "k \<in> fst ` set (attrib_set l v (attrib_pop an kvs))"
          unfolding keys_attrib_set keys_attrib_pop by auto
        from Cons.IH [OF this Cons.prems(2)] True Some l show ?thesis by simp
      qed
    qed
  qed
qed

lemma strip_attribs_valid:
  assumes "distinct ans" and "\<forall>an \<in> set ans. valid_name an"
    and "\<forall>an \<in> set ans. startswith an (CHR ''{'') \<longrightarrow> an \<in> fst ` set kvs"
    and "\<forall>k \<in> fst ` set kvs. startswith k (CHR ''{'') \<longrightarrow> k \<in> set ans"
  shows "fst (strip_attribs ans kvs) = None
     \<and> (\<forall>k \<in> fst ` set (snd (strip_attribs ans kvs)). \<not> startswith k (CHR ''{''))"
  using assms
proof (induction ans arbitrary: kvs)
  case Nil
  then show ?case by simp
next
  case (Cons an ans)
  from Cons.prems(1) have d: "distinct ans" and nin: "an \<notin> set ans" by simp_all
  from Cons.prems(2) have vn: "valid_name an" and vs: "\<forall>an \<in> set ans. valid_name an"
    by simp_all
  from Cons.prems(3) have cov: "\<forall>a \<in> set ans. startswith a (CHR ''{'') \<longrightarrow> a \<in> fst ` set kvs"
    and cov0: "startswith an (CHR ''{'') \<longrightarrow> an \<in> fst ` set kvs" by simp_all
  show ?case
  proof (cases "startswith an (CHR ''{'')")
    case False
    have "\<forall>k \<in> fst ` set kvs. startswith k (CHR ''{'') \<longrightarrow> k \<in> set ans"
    proof (intro ballI impI)
      fix k assume k: "k \<in> fst ` set kvs" "startswith k (CHR ''{'')"
      with Cons.prems(4) have "k \<in> set (an # ans)" by blast
      with k(2) False show "k \<in> set ans" by auto
    qed
    from Cons.IH [OF d vs cov this] False show ?thesis by simp
  next
    case True
    from vn True obtain l where l: "split1_second (CHR ''}'') an = Some l"
      and nl: "\<not> startswith l (CHR ''{'')"
      unfolding valid_name_def by (cases "split1_second (CHR ''}'') an") simp_all
    from True cov0 have "an \<in> fst ` set kvs" by simp
    then have "an \<in> dom (map_of kvs)" by (simp add: dom_map_of_conv_image_fst)
    then obtain v where v: "map_of kvs an = Some v" by blast
    let ?kvs = "attrib_set l v (attrib_pop an kvs)"
    have a: "\<forall>a \<in> set ans. startswith a (CHR ''{'') \<longrightarrow> a \<in> fst ` set ?kvs"
    proof (intro ballI impI)
      fix a assume a: "a \<in> set ans" "startswith a (CHR ''{'')"
      with cov have "a \<in> fst ` set kvs" by blast
      moreover from a(1) nin have "a \<noteq> an" by blast
      ultimately show "a \<in> fst ` set ?kvs"
        unfolding keys_attrib_set keys_attrib_pop by simp
    qed
    have b: "\<forall>k \<in> fst ` set ?kvs. startswith k (CHR ''{'') \<longrightarrow> k \<in> set ans"
    proof (intro ballI impI)
      fix k assume k: "k \<in> fst ` set ?kvs" "startswith k (CHR ''{'')"
      from k(1) have "k = l \<or> (k \<in> fst ` set kvs \<and> k \<noteq> an)"
        unfolding keys_attrib_set keys_attrib_pop by simp
      with k(2) nl have k2: "k \<in> fst ` set kvs" "k \<noteq> an" by blast+
      with Cons.prems(4) k(2) have "k \<in> set (an # ans)" by blast
      with k2(2) show "k \<in> set ans" by simp
    qed
    from Cons.IH [OF d vs a b] True l v show ?thesis by simp
  qed
qed

lemma strip_tag_valid:
  "valid_name t \<Longrightarrow> \<exists>t'. strip_tag t = Inr t' \<and> \<not> startswith t' (CHR ''{'')"
  by (cases "startswith t (CHR ''{'')") (auto simp: strip_tag_def valid_name_def split: option.splits)

lemma strip_tag_plain: "\<not> startswith t (CHR ''{'') \<Longrightarrow> strip_tag t = Inr t"
  by (simp add: strip_tag_def)

lemma strip_plain:
  "only_elements d \<Longrightarrow> no_prefix d \<Longrightarrow> strip_namespaces d = (None, d)"
  "(\<forall>c \<in> set ds. only_elements c) \<Longrightarrow> (\<forall>c \<in> set ds. no_prefix c) \<Longrightarrow>
     strip_namespaces_list ds = (None, ds)"
  by (induction d and ds rule: strip_namespaces_strip_namespaces_list.induct)
     (auto simp: strip_tag_plain strip_attribs_plain)

lemma strip_twice:
  "valid_tree d \<Longrightarrow>
     strip_namespaces (snd (strip_namespaces d)) = strip_namespaces d
     \<and> fst (strip_namespaces d) = (if only_elements d then None else Some AttributeError)
     \<and> (only_elements d \<longrightarrow> no_prefix (snd (strip_namespaces d)))"
  "(\<forall>c \<in> set ds. valid_tree c) \<Longrightarrow>
     strip_namespaces_list (snd (strip_namespaces_list ds)) = strip_namespaces_list ds
     \<and> fst (strip_namespaces_list ds)
         = (if \<forall>c \<in> set ds. only_elements c then None else Some AttributeError)
     \<and> ((\<forall>c \<in> set ds. only_elements c) \<longrightarrow> (\<forall>c \<in> set (snd (strip_namespaces_list ds)). no_prefix c))"
proof (induction d and ds rule: strip_namespaces_strip_namespaces_list.induct)
  case (1 c)
  show ?case by simp
next
  case (2 t a x cs)
  from "2.prems" obtain t' where t': "strip_tag t = Inr t'" and nt: "\<not> startswith t' (CHR ''{'')"
    using strip_tag_valid [of t] by auto
  from "2.prems" have sa: "fst (strip_attribs (map fst a) a) = None
     \<and> (\<forall>k \<in> fst ` set (snd (strip_attribs (map fst a) a)). \<not> startswith k (CHR ''{''))"
    by (intro strip_attribs_valid) auto
  obtain a' where a': "strip_attribs (map fst a) a = (None, a')"
    using sa by (cases "strip_attribs (map fst a) a") auto
  with sa have na: "\<forall>k \<in> set (map fst a'). \<not> startswith k (CHR ''{'')" by simp
  obtain eo cs' where cs': "strip_namespaces_list cs = (eo, cs')"
    by (cases "strip_namespaces_list cs") auto
  from "2.prems" have vc: "\<forall>c \<in> set cs. valid_tree c" by simp
  note ih0 = "2.IH" [OF t' a' [symmetric] refl vc]
  from ih0 have ih1: "strip_namespaces_list cs' = (eo, cs')"
    unfolding cs' by simp
  from ih0 have ih2: "eo = (if \<forall>c \<in> set cs. only_elements c then None else Some AttributeError)"
    unfolding cs' by simp
  from ih0 have ih3: "(\<forall>c \<in> set cs. only_elements c) \<longrightarrow> (\<forall>c \<in> set cs'. no_prefix c)"
    unfolding cs' by simp
  have r: "strip_namespaces (Element t a x cs) = (eo, Element t' a' x cs')"
    by (simp add: t' a' cs')
  have r2: "strip_namespaces (Element t' a' x cs') = (eo, Element t' a' x cs')"
    using nt na ih1 by (simp add: strip_tag_plain strip_attribs_plain)
  have r3: "only_elements (Element t a x cs) \<longrightarrow> no_prefix (Element t' a' x cs')"
    using nt na ih3 by simp
  have r4: "eo = (if only_elements (Element t a x cs) then None else Some AttributeError)"
    using ih2 by simp
  show ?case unfolding r using r2 r3 r4 by simp
next
  case 3
  show ?case by simp
next
  case (4 c cs)
  from "4.prems" have vc: "valid_tree c" and vcs: "\<forall>c \<in> set cs. valid_tree c" by simp_all
  obtain eo c' where c': "strip_namespaces c = (eo, c')"
    by (cases "strip_namespaces c") auto
  note ih0 = "4.IH"(1) [OF vc]
  from ih0 have ih1: "strip_namespaces c' = (eo, c')" unfolding c' by simp
  from ih0 have ih2: "eo = (if only_elements c then None else Some AttributeError)"
    unfolding c' by simp
  from ih0 have ih3: "only_elements c \<longrightarrow> no_prefix c'" unfolding c' by simp
  show ?case
  proof (cases "only_elements c")
    case False
    with ih2 have e: "eo = Some AttributeError" by simp
    have r: "strip_namespaces_list (c # cs) = (Some AttributeError, c' # cs)"
      by (simp add: c' e)
    have r2: "strip_namespaces_list (c' # cs) = (Some AttributeError, c' # cs)"
      using ih1 e by simp
    show ?thesis unfolding r using r2 False by simp
  next
    case True
    with ih2 have e: "eo = None" by simp
    obtain eo2 cs' where cs': "strip_namespaces_list cs = (eo2, cs')"
      by (cases "strip_namespaces_list cs") auto
    from e c' have c0: "(None, c') = strip_namespaces c" by simp
    note jh0 = "4.IH"(2) [OF c0 refl vcs]
    from jh0 have jh1: "strip_namespaces_list cs' = (eo2, cs')" unfolding cs' by simp
    from jh0 have jh2: "eo2 = (if \<forall>c \<in> set cs. only_elements c then None else Some AttributeError)"
      unfolding cs' by simp
    from jh0 have jh3: "(\<forall>c \<in> set cs. only_elements c) \<longrightarrow> (\<forall>c \<in> set cs'. no_prefix c)"
      unfolding cs' by simp
    have r: "strip_namespaces_list (c # cs) = (eo2, c' # cs')"
      by (simp add: c' e cs')
    have r2: "strip_namespaces_list (c' # cs') = (eo2, c' # cs')"
      using ih1 e jh1 by simp
    have r3: "eo2 = (if \<forall>c \<in> set (c # cs). only_elements c then None else Some AttributeError)"
      using jh2 True by simp
    have r4: "(\<forall>c \<in> set (c # cs). only_elements c) \<longrightarrow> (\<forall>c \<in> set (c' # cs'). no_prefix c)"
      using jh3 ih3 True by simp
    show ?thesis unfolding r using r2 r3 r4 by simp
  qed
qed

lemma strip_element_shape:
  "\<exists>eo cs'. strip_namespaces (Element t a x cs)
      = (eo, Element (case strip_tag t of Inl e \<Rightarrow> t | Inr t' \<Rightarrow> t')
                     (case strip_tag t of Inl e \<Rightarrow> a | Inr t' \<Rightarrow> snd (strip_attribs (map fst a) a))
                     x cs')"
proof (cases "strip_tag t")
  case (Inl e)
  then show ?thesis by simp
next
  case (Inr t1)
  obtain eo a1 where a1: "strip_attribs (map fst a) a = (eo, a1)"
    by (cases "strip_attribs (map fst a) a") auto
  obtain eo2 cs1 where cs1: "strip_namespaces_list cs = (eo2, cs1)"
    by (cases "strip_namespaces_list cs") auto
  show ?thesis
  proof (cases eo)
    case None
    with Inr a1 cs1 show ?thesis by simp
  next
    case (Some e)
    with Inr a1 show ?thesis by simp
  qed
qed

lemma strip_element_children:
  assumes "strip_namespaces (Element t a x cs) = (None, Element t' a' x' cs')"
  shows "strip_namespaces_list cs = (None, cs')"
proof (cases "strip_tag t")
  case (Inl e)
  with assms show ?thesis by simp
next
  case (Inr t1)
  obtain eo a1 where a1: "strip_attribs (map fst a) a = (eo, a1)"
    by (cases "strip_attribs (map fst a) a") auto
  obtain eo2 cs1 where cs1: "strip_namespaces_list cs = (eo2, cs1)"
    by (cases "strip_namespaces_list cs") auto
  show ?thesis
  proof (cases eo)
    case None
    with Inr a1 cs1 assms show ?thesis by simp
  next
    case (Some e)
    with Inr a1 assms show ?thesis by simp
  qed
qed

text \<open>
  C10. \<open>strip_namespaces\<close> is idempotent on every tree that \<open>lxml\<close> can hold: a second call
  ends as the first one did, with the same exception or with none, and leaves the same
  tree. The call succeeds exactly when every node of the tree is an element, and the tree
  it returns then has no prefix left. On a tree with a comment, a processing instruction
  or an entity reference it raises \<open>AttributeError\<close> at the first such node in document
  order; the tree is then stripped up to that node only, and a second call raises at the
  same node and changes nothing. A tag without a namespace prefix is left as it is, an
  attribute name without a prefix is still an attribute name of the element afterwards,
  the text is kept, the children of an element on which the call succeeds are stripped in
  turn, and a tree of elements without any prefix is returned unchanged.
\<close>

theorem strip_namespaces_idempotent:
  "(valid_tree d \<longrightarrow>
      strip_namespaces (snd (strip_namespaces d)) = strip_namespaces d
      \<and> fst (strip_namespaces d) = (if only_elements d then None else Some AttributeError)
      \<and> (only_elements d \<longrightarrow> no_prefix (snd (strip_namespaces d))))
   \<and> (snd (strip_namespaces (Element t a x cs)) = Element t' a' x' cs' \<longrightarrow>
        (\<not> startswith t (CHR ''{'') \<longrightarrow> t' = t)
        \<and> (\<forall>k \<in> fst ` set a. \<not> startswith k (CHR ''{'') \<longrightarrow> k \<in> fst ` set a')
        \<and> x' = x
        \<and> (fst (strip_namespaces (Element t a x cs)) = None \<longrightarrow>
             strip_namespaces_list cs = (None, cs')))
   \<and> (only_elements d \<and> no_prefix d \<longrightarrow> strip_namespaces d = (None, d))"
proof -
  have p1: "valid_tree d \<longrightarrow>
      strip_namespaces (snd (strip_namespaces d)) = strip_namespaces d
      \<and> fst (strip_namespaces d) = (if only_elements d then None else Some AttributeError)
      \<and> (only_elements d \<longrightarrow> no_prefix (snd (strip_namespaces d)))"
    using strip_twice(1) [of d] by blast
  have p2: "snd (strip_namespaces (Element t a x cs)) = Element t' a' x' cs' \<longrightarrow>
        (\<not> startswith t (CHR ''{'') \<longrightarrow> t' = t)
        \<and> (\<forall>k \<in> fst ` set a. \<not> startswith k (CHR ''{'') \<longrightarrow> k \<in> fst ` set a')
        \<and> x' = x
        \<and> (fst (strip_namespaces (Element t a x cs)) = None \<longrightarrow>
             strip_namespaces_list cs = (None, cs'))"
  proof
    assume s: "snd (strip_namespaces (Element t a x cs)) = Element t' a' x' cs'"
    from strip_element_shape [of t a x cs] s
    have t': "t' = (case strip_tag t of Inl e \<Rightarrow> t | Inr t1 \<Rightarrow> t1)"
      and a': "a' = (case strip_tag t of Inl e \<Rightarrow> a | Inr t1 \<Rightarrow> snd (strip_attribs (map fst a) a))"
      and c3: "x' = x"
      by auto
    have c1: "\<not> startswith t (CHR ''{'') \<longrightarrow> t' = t"
      unfolding t' by (simp add: strip_tag_plain)
    have c2: "\<forall>k \<in> fst ` set a. \<not> startswith k (CHR ''{'') \<longrightarrow> k \<in> fst ` set a'"
    proof (cases "strip_tag t")
      case (Inl e)
      then show ?thesis unfolding a' by simp
    next
      case (Inr t1)
      then have "a' = snd (strip_attribs (map fst a) a)" unfolding a' by simp
      then show ?thesis using strip_attribs_keeps_plain by blast
    qed
    have c4: "fst (strip_namespaces (Element t a x cs)) = None \<longrightarrow>
             strip_namespaces_list cs = (None, cs')"
    proof
      assume "fst (strip_namespaces (Element t a x cs)) = None"
      with s have "strip_namespaces (Element t a x cs) = (None, Element t' a' x' cs')"
        by (cases "strip_namespaces (Element t a x cs)") simp
      then show "strip_namespaces_list cs = (None, cs')" by (rule strip_element_children)
    qed
    from c1 c2 c3 c4 show "(\<not> startswith t (CHR ''{'') \<longrightarrow> t' = t)
        \<and> (\<forall>k \<in> fst ` set a. \<not> startswith k (CHR ''{'') \<longrightarrow> k \<in> fst ` set a')
        \<and> x' = x
        \<and> (fst (strip_namespaces (Element t a x cs)) = None \<longrightarrow>
             strip_namespaces_list cs = (None, cs'))" by blast
  qed
  have p3: "only_elements d \<and> no_prefix d \<longrightarrow> strip_namespaces d = (None, d)"
    using strip_plain(1) by blast
  from p1 p2 p3 show ?thesis by blast
qed

theorem strip_namespaces_idempotent_witness:
  "valid_tree demo_tree \<and> only_elements demo_tree
   \<and> strip_namespaces demo_tree = (None, demo_tree_stripped)
   \<and> strip_namespaces demo_tree_stripped = (None, demo_tree_stripped)
   \<and> only_elements demo_tree_stripped \<and> no_prefix demo_tree_stripped
   \<and> ''id'' \<in> fst ` set (attrib demo_tree) \<and> \<not> startswith ''id'' (CHR ''{'')
   \<and> ''id'' \<in> fst ` set (attrib demo_tree_stripped)
   \<and> strip_namespaces_list (children demo_tree) = (None, children demo_tree_stripped)
   \<and> valid_tree commented_tree \<and> \<not> only_elements commented_tree
   \<and> strip_namespaces commented_tree = (Some AttributeError, commented_tree_left)
   \<and> strip_namespaces commented_tree_left = (Some AttributeError, commented_tree_left)"
proof -
  have v: "valid_tree demo_tree" "only_elements demo_tree"
    by (simp_all add: demo_tree_def valid_name_def)
  have s: "strip_namespaces demo_tree = (None, demo_tree_stripped)"
    by (simp add: demo_tree_def demo_tree_stripped_def strip_tag_def attrib_pop_def)
  have n: "only_elements demo_tree_stripped" "no_prefix demo_tree_stripped"
    by (simp_all add: demo_tree_stripped_def)
  have a: "''id'' \<in> fst ` set (attrib demo_tree)" "\<not> startswith ''id'' (CHR ''{'')"
    by (simp_all add: demo_tree_def)
  have vc: "valid_tree commented_tree" "\<not> only_elements commented_tree"
    by (simp_all add: commented_tree_def valid_name_def)
  have sc: "strip_namespaces commented_tree = (Some AttributeError, commented_tree_left)"
    by (simp add: commented_tree_def commented_tree_left_def strip_tag_def)
  have e: "Element (tag demo_tree) (attrib demo_tree) (el_text demo_tree) (children demo_tree) = demo_tree"
    "Element (tag demo_tree_stripped) (attrib demo_tree_stripped) (el_text demo_tree_stripped)
       (children demo_tree_stripped) = demo_tree_stripped"
    by (simp_all add: demo_tree_def demo_tree_stripped_def)
  note T = strip_namespaces_idempotent [where d = demo_tree and t = "tag demo_tree"
      and a = "attrib demo_tree" and x = "el_text demo_tree" and cs = "children demo_tree"
      and t' = "tag demo_tree_stripped" and a' = "attrib demo_tree_stripped"
      and x' = "el_text demo_tree_stripped" and cs' = "children demo_tree_stripped"]
  from T v have "strip_namespaces (snd (strip_namespaces demo_tree)) = strip_namespaces demo_tree"
    by blast
  then have i1: "strip_namespaces demo_tree_stripped = (None, demo_tree_stripped)"
    unfolding s by simp
  have "snd (strip_namespaces (Element (tag demo_tree) (attrib demo_tree) (el_text demo_tree)
          (children demo_tree)))
        = Element (tag demo_tree_stripped) (attrib demo_tree_stripped) (el_text demo_tree_stripped)
            (children demo_tree_stripped)"
    unfolding e s by simp
  with T a have i3: "''id'' \<in> fst ` set (attrib demo_tree_stripped)"
    and i4: "fst (strip_namespaces (Element (tag demo_tree) (attrib demo_tree) (el_text demo_tree)
          (children demo_tree))) = None \<longrightarrow>
        strip_namespaces_list (children demo_tree) = (None, children demo_tree_stripped)"
    by blast+
  from i4 have i5: "strip_namespaces_list (children demo_tree) = (None, children demo_tree_stripped)"
    unfolding e s by simp
  from strip_namespaces_idempotent [where d = commented_tree] vc(1)
  have "strip_namespaces (snd (strip_namespaces commented_tree)) = strip_namespaces commented_tree"
    by blast
  then have i2: "strip_namespaces commented_tree_left = (Some AttributeError, commented_tree_left)"
    unfolding sc by simp
  from v s i1 n a i3 i5 vc sc i2 show ?thesis by blast
qed

section \<open>The status file: saving and loading\<close>

lemma split_no_sep: "sep \<notin> set s \<Longrightarrow> split sep s = [s]"
  by (induction s) auto

lemma split_at_sep: "sep \<notin> set a \<Longrightarrow> split sep (a @ sep # rest) = a # split sep rest"
  by (induction a) auto

lemma split_not_Nil: "split sep s \<noteq> []"
  by (induction s) (auto split: list.splits)

lemma split_single_empty: "split sep s = [[]] \<Longrightarrow> s = []"
  by (induction s) (auto split: list.splits if_splits simp: split_not_Nil)

lemma readline_no_break: "CHR 0x0A \<notin> set s \<Longrightarrow> CHR 0x0D \<notin> set s \<Longrightarrow> readline s = s"
  by (induction s) auto

lemma rstrip_after_sep: "\<not> isspace c \<Longrightarrow> rstrip (a @ c # e) = a @ c # rstrip e"
  by (auto simp: rstrip_def dropWhile_append)

lemma replay_append: "replay (xs @ ys) d = replay ys (replay xs d)"
  by (simp add: replay_def)

lemma replay_Cons: "replay (e # es) d = replay es (apply_event e d)"
  by (simp add: replay_def)

lemma replay_Nil: "replay [] d = d"
  by (simp add: replay_def)

lemma replay_writes:
  "replay (map (Write f) ws) d = d(f := (d f)\<lparr>pending := pending (d f) @ concat ws\<rparr>)"
proof (induction ws arbitrary: d)
  case Nil
  show ?case by (simp add: replay_Nil)
next
  case (Cons w ws)
  show ?case by (auto simp: replay_Cons Cons.IH fun_eq_iff)
qed

lemma saved_text:
  assumes "status_writes rt = Inr ws"
  shows "content (replay (fst (checkpoint_events rt)) d StatusF) = Some (concat ws)"
  using assms
  by (simp add: checkpoint_events_def replay_append replay_Cons replay_Nil replay_writes flush_file_def)

lemma load_four_fields:
  assumes "plain_field t" "plain_field c" "plain_field n" "plain_field e" "rstrip e = e"
  shows "load_status (Some (t @ ''/'' @ c @ ''/'' @ n @ ''/'' @ e))
         = Inr (Some \<lparr>token = Some t, cursor = Some c, complete_list_size = Some n,
                       expiration_date = Some e\<rparr>)"
proof -
  let ?line = "t @ ''/'' @ c @ ''/'' @ n @ ''/'' @ e"
  have r: "readline ?line = ?line"
    using assms by (intro readline_no_break) (auto simp: plain_field_def)
  have "rstrip ((t @ ''/'' @ c @ ''/'' @ n) @ CHR ''/'' # e) = (t @ ''/'' @ c @ ''/'' @ n) @ CHR ''/'' # rstrip e"
    by (rule rstrip_after_sep) (simp add: isspace_def)
  with assms(5) have s: "rstrip ?line = ?line" by simp
  have "split (CHR ''/'') ?line = [t, c, n, e]"
    using assms by (simp add: plain_field_def split_at_sep split_no_sep)
  with r s show ?thesis by (simp add: load_status_def)
qed

text \<open>
  C4 does not hold of every token. Saving a resumption token and loading it back does not give the
  same state for every token: the four fields are written with nothing between them but
  slashes, and an absent field is written as nothing. A token with a slash in it is saved
  as a line of five parts, which the load rejects; a token whose cursor, list size and
  expiration date are absent is loaded with the empty string in their place.
\<close>

theorem checkpoint_roundtrip_counterexample:
  "load_status (content (replay (fst (checkpoint_events (Some slash_token))) fresh_disk StatusF))
     = Inl [''a'', ''b'', ''50'', ''500'', []]
   \<and> load_status (content (replay (fst (checkpoint_events (Some sparse_token))) fresh_disk StatusF))
     = Inr (Some \<lparr>token = Some ''abc123'', cursor = Some [], complete_list_size = Some [],
                   expiration_date = Some []\<rparr>)
   \<and> load_status (content (replay (fst (checkpoint_events (Some sparse_token))) fresh_disk StatusF))
     \<noteq> Inr (Some sparse_token)"
  by code_simp

text \<open>
  C4, in the form that holds. When the token is present, no field holds a slash or a line break and the
  expiration date does not end in whitespace, the save succeeds and the load returns the
  token unchanged, every present field as it was, and the empty string for every absent
  field.
\<close>

theorem checkpoint_roundtrip:
  assumes "token x = Some t"
    and "plain_field t"
    and "plain_field (field_text (cursor x))"
    and "plain_field (field_text (complete_list_size x))"
    and "plain_field (field_text (expiration_date x))"
    and "rstrip (field_text (expiration_date x)) = field_text (expiration_date x)"
  shows "snd (checkpoint_events (Some x)) = None
     \<and> load_status (content (replay (fst (checkpoint_events (Some x))) d StatusF))
       = Inr (Some \<lparr>token = Some t, cursor = Some (field_text (cursor x)),
                     complete_list_size = Some (field_text (complete_list_size x)),
                     expiration_date = Some (field_text (expiration_date x))\<rparr>)"
proof -
  let ?ws = "[t, ''/''] @ (case cursor x of None \<Rightarrow> [] | Some c \<Rightarrow> [c]) @ [''/'']
             @ (case complete_list_size x of None \<Rightarrow> [] | Some n \<Rightarrow> [n]) @ [''/'']
             @ (case expiration_date x of None \<Rightarrow> [] | Some e \<Rightarrow> [e])"
  have w: "status_writes (Some x) = Inr ?ws"
    using assms(1) by (simp add: status_writes_def)
  have c: "concat ?ws = t @ ''/'' @ field_text (cursor x) @ ''/''
             @ field_text (complete_list_size x) @ ''/'' @ field_text (expiration_date x)"
    by (simp add: field_text_def split: option.splits)
  have "snd (checkpoint_events (Some x)) = None"
    using w by (simp add: checkpoint_events_def)
  moreover have "content (replay (fst (checkpoint_events (Some x))) d StatusF) = Some (concat ?ws)"
    using w by (rule saved_text)
  ultimately show ?thesis
    unfolding c using load_four_fields [OF assms(2-6)] by simp
qed

theorem checkpoint_roundtrip_witness:
  "token resume_token = Some ''abc123''
   \<and> plain_field ''abc123'' \<and> plain_field (field_text (cursor resume_token))
   \<and> plain_field (field_text (complete_list_size resume_token))
   \<and> plain_field (field_text (expiration_date resume_token))
   \<and> rstrip (field_text (expiration_date resume_token)) = field_text (expiration_date resume_token)
   \<and> content (replay (fst (checkpoint_events (Some resume_token))) fresh_disk StatusF)
       = Some ''abc123/50/500/''
   \<and> load_status (content (replay (fst (checkpoint_events (Some resume_token))) fresh_disk StatusF))
       = Inr (Some \<lparr>token = Some ''abc123'', cursor = Some ''50'',
                     complete_list_size = Some ''500'', expiration_date = Some []\<rparr>)"
proof -
  have h: "token resume_token = Some ''abc123''" "plain_field ''abc123''"
    "plain_field (field_text (cursor resume_token))"
    "plain_field (field_text (complete_list_size resume_token))"
    "plain_field (field_text (expiration_date resume_token))"
    "rstrip (field_text (expiration_date resume_token)) = field_text (expiration_date resume_token)"
    by (simp_all add: resume_token_def plain_field_def field_text_def rstrip_def)
  have c: "content (replay (fst (checkpoint_events (Some resume_token))) fresh_disk StatusF)
       = Some ''abc123/50/500/''"
    by code_simp
  have f: "field_text (cursor resume_token) = ''50''"
    "field_text (complete_list_size resume_token) = ''500''"
    "field_text (expiration_date resume_token) = []"
    by (simp_all add: resume_token_def field_text_def)
  from checkpoint_roundtrip [OF h, of fresh_disk] h c f show ?thesis by simp
qed

text \<open>
  C5 does not hold of every non-empty file. A status file that holds a single space is not empty and its
  line does not split into four fields, yet the load takes it for an empty file: the run
  is the run of a fresh start, and the first record of the listing is harvested.
\<close>

theorem corrupt_status_counterexample:
  "content (blank_status_disk StatusF) = Some '' ''
   \<and> length (split (CHR ''/'') '' '') \<noteq> 4
   \<and> load_status (content (blank_status_disk StatusF)) = Inr None
   \<and> crawl_finna 20 demo_env demo_cfg blank_status_disk = crawl_finna 20 demo_env demo_cfg fresh_disk
   \<and> Yield (demo_record ''r1'') \<in> set (fst (crawl_finna 20 demo_env demo_cfg blank_status_disk))"
  by code_simp

text \<open>
  C5, in the form that holds. Once a metadata prefix and at least one sink are given, a status file whose
  first line is not blank (something is left of it when the trailing whitespace is
  stripped) and does not split into exactly four fields makes the load fail: the error is
  logged with the parts found, the command returns, nothing is requested from the server
  and no file is touched.
\<close>

theorem corrupt_status_reported:
  assumes "metadata_prefix cfg = Some p"
    and "metadata_output cfg \<noteq> None \<or> record_output cfg \<noteq> None"
    and "content (d StatusF) = Some body"
    and "rstrip (readline body) \<noteq> []"
    and "length (split (CHR ''/'') (rstrip (readline body))) \<noteq> 4"
  shows "crawl_finna fuel env cfg d = ([LogError (split (CHR ''/'') (rstrip (readline body)))], Returned)
     \<and> replay (fst (crawl_finna fuel env cfg d)) d = d"
proof -
  let ?parts = "split (CHR ''/'') (rstrip (readline body))"
  have "\<not> (length ?parts = 1 \<and> ?parts ! 0 = [])"
  proof
    assume a: "length ?parts = 1 \<and> ?parts ! 0 = []"
    then have "?parts = [[]]" by (cases ?parts) auto
    then have "rstrip (readline body) = []" by (rule split_single_empty)
    with assms(4) show False by simp
  qed
  with assms(5) have "load_status (Some body) = Inl ?parts"
    by (simp add: load_status_def Let_def)
  with assms(1-3) have "crawl_finna fuel env cfg d = ([LogError ?parts], Returned)"
    by (auto simp: crawl_finna_def)
  then show ?thesis by (simp add: replay_def)
qed

theorem corrupt_status_reported_witness:
  "metadata_prefix demo_cfg = Some ''oai_dc''
   \<and> metadata_output demo_cfg = Some ''m.tsv''
   \<and> content (corrupt_status_disk StatusF) = Some ''abc123/50''
   \<and> rstrip (readline ''abc123/50'') \<noteq> []
   \<and> length (split (CHR ''/'') (rstrip (readline ''abc123/50''))) \<noteq> 4
   \<and> crawl_finna 20 demo_env demo_cfg corrupt_status_disk
       = ([LogError [''abc123'', ''50'']], Returned)"
proof -
  have h: "metadata_prefix demo_cfg = Some ''oai_dc''"
    "metadata_output demo_cfg \<noteq> None \<or> record_output demo_cfg \<noteq> None"
    "content (corrupt_status_disk StatusF) = Some ''abc123/50''"
    by (simp_all add: demo_cfg_def corrupt_status_disk_def closed_file_def)
  have r: "rstrip (readline ''abc123/50'') = ''abc123/50''" by code_simp
  have s: "split (CHR ''/'') ''abc123/50'' = [''abc123'', ''50'']" by simp
  from r s have l: "rstrip (readline ''abc123/50'') \<noteq> []"
    "length (split (CHR ''/'') (rstrip (readline ''abc123/50''))) \<noteq> 4" by simp_all
  from corrupt_status_reported [where cfg = demo_cfg and d = corrupt_status_disk
      and body = "''abc123/50''" and p = "''oai_dc''" and fuel = 20 and env = demo_env] h l r s
  show ?thesis by (simp add: demo_cfg_def)
qed

section \<open>The status file when the run opens it\<close>

lemma apply_event_other: "event_file e \<noteq> Some f \<Longrightarrow> apply_event e d f = d f"
  by (cases e) auto


lemma status_empty_step:
  assumes "status_empty d" and "\<forall>s. e \<noteq> Write StatusF s"
  shows "status_empty (apply_event e d)"
proof (cases "event_file e = Some StatusF")
  case False
  then have "apply_event e d StatusF = d StatusF" by (rule apply_event_other)
  with assms(1) show ?thesis by (simp add: status_empty_def)
next
  case True
  with assms show ?thesis
    by (cases e) (simp_all add: status_empty_def flush_file_def close_file_def)
qed

lemma status_stays_empty:
  "status_empty d \<Longrightarrow> \<forall>s. Write StatusF s \<notin> set evs \<Longrightarrow> status_empty (replay evs d)"
proof (induction evs arbitrary: d)
  case Nil
  then show ?case by (simp add: replay_Nil)
next
  case (Cons e es)
  from Cons.prems have "status_empty (apply_event e d)"
    by (intro status_empty_step) auto
  with Cons show ?case by (simp add: replay_Cons)
qed

lemma crawl_trace_shape:
  assumes "metadata_prefix cfg = Some p" and "metadata_output cfg \<noteq> None"
    and "load_status (content (d StatusF)) = Inr loaded"
  shows "\<exists>rest. fst (crawl_finna fuel env cfg d)
           = header_events env cfg d @ open_events env cfg @ fst (harvest fuel env cfg p loaded) @ rest"
proof (cases "snd (harvest fuel env cfg p loaded)")
  case Completed
  with assms show ?thesis by (auto simp: crawl_finna_def case_prod_beta)
next
  case (Raised e)
  with assms show ?thesis by (auto simp: crawl_finna_def case_prod_beta)
next
  case Unfinished
  with assms show ?thesis by (auto simp: crawl_finna_def case_prod_beta)
qed

lemma header_events_status: "\<forall>e \<in> set (header_events env cfg d). event_file e \<noteq> Some StatusF"
  by (auto simp: header_events_def)

text \<open>
  C9. In every run that gets as far as opening its files (a metadata prefix and the metadata
  sink are given and the status file loads), the events up to the opening of the status
  file are the header events followed by that opening, which empties the file. If the
  process is killed at any later point before the first write to the status file, the
  status file is empty: the resume position it held before the run is gone.
\<close>

theorem status_file_emptied_on_open:
  assumes "metadata_prefix cfg = Some p" and "metadata_output cfg \<noteq> None"
    and "load_status (content (d StatusF)) = Inr loaded"
  shows "take (Suc (length (header_events env cfg d))) (fst (crawl_finna fuel env cfg d))
           = header_events env cfg d @ [OpenW StatusF]
     \<and> (\<forall>n > length (header_events env cfg d).
          (\<forall>s. Write StatusF s \<notin> set (take n (fst (crawl_finna fuel env cfg d)))) \<longrightarrow>
          content (after_kill (replay (take n (fst (crawl_finna fuel env cfg d))) d) StatusF) = Some [])"
proof -
  let ?h = "header_events env cfg d"
  from crawl_trace_shape [where d = d, OF assms] obtain rest0 where
    "fst (crawl_finna fuel env cfg d) = ?h @ open_events env cfg @ fst (harvest fuel env cfg p loaded) @ rest0"
    by blast
  then obtain rest where t: "fst (crawl_finna fuel env cfg d) = ?h @ OpenW StatusF # rest"
    by (simp add: open_events_def)
  have a: "take (Suc (length ?h)) (fst (crawl_finna fuel env cfg d)) = ?h @ [OpenW StatusF]"
    unfolding t by simp
  have b: "content (after_kill (replay (take n (fst (crawl_finna fuel env cfg d))) d) StatusF) = Some []"
    if n: "n > length ?h" and w: "\<forall>s. Write StatusF s \<notin> set (take n (fst (crawl_finna fuel env cfg d)))"
    for n
  proof -
    from n obtain m where m: "n = Suc (length ?h + m)"
      by (metis less_imp_Suc_add)
    have k: "take n (fst (crawl_finna fuel env cfg d)) = ?h @ OpenW StatusF # take m rest"
      unfolding t m by simp
    have "status_empty (apply_event (OpenW StatusF) (replay ?h d))"
      by (simp add: status_empty_def)
    moreover from w have "\<forall>s. Write StatusF s \<notin> set (take m rest)"
      unfolding k by simp
    ultimately have "status_empty (replay (take m rest) (apply_event (OpenW StatusF) (replay ?h d)))"
      by (rule status_stays_empty)
    then show ?thesis
      unfolding k by (simp add: replay_append replay_Cons status_empty_def after_kill_def)
  qed
  from a b show ?thesis by blast
qed

theorem status_file_emptied_on_open_witness:
  "metadata_prefix demo_cfg = Some ''oai_dc'' \<and> metadata_output demo_cfg = Some ''m.tsv''
   \<and> content (resume_disk StatusF) = Some ''abc123/50/500/''
   \<and> load_status (content (resume_disk StatusF)) = Inr (Some (loaded_token ''abc123'' ''50'' ''500''))
   \<and> take 3 (fst (crawl_finna 20 demo_env demo_cfg resume_disk))
       = [OpenW StatusF, XopenA MetadataF False, XopenA RecordF False]
   \<and> content (after_kill (replay (take 3 (fst (crawl_finna 20 demo_env demo_cfg resume_disk)))
        resume_disk) StatusF) = Some []"
proof -
  have c: "metadata_prefix demo_cfg = Some ''oai_dc''" "metadata_output demo_cfg = Some ''m.tsv''"
    by (simp_all add: demo_cfg_def)
  have c2: "metadata_output demo_cfg \<noteq> None" by (simp add: demo_cfg_def)
  have s: "content (resume_disk StatusF) = Some ''abc123/50/500/''"
    by (simp add: resume_disk_def closed_file_def)
  have l: "load_status (content (resume_disk StatusF)) = Inr (Some (loaded_token ''abc123'' ''50'' ''500''))"
    by code_simp
  have t: "take 3 (fst (crawl_finna 20 demo_env demo_cfg resume_disk))
       = [OpenW StatusF, XopenA MetadataF False, XopenA RecordF False]"
    by code_simp
  have h: "header_events demo_env demo_cfg resume_disk = []"
    by (simp add: header_events_def resume_disk_def closed_file_def)
  from status_file_emptied_on_open [where d = resume_disk and fuel = 20 and env = demo_env,
      OF c(1) c2 l]
  have "\<forall>n > 0. (\<forall>s. Write StatusF s \<notin> set (take n (fst (crawl_finna 20 demo_env demo_cfg resume_disk)))) \<longrightarrow>
          content (after_kill (replay (take n (fst (crawl_finna 20 demo_env demo_cfg resume_disk))) resume_disk) StatusF) = Some []"
    unfolding h by simp
  then have "(\<forall>s. Write StatusF s \<notin> set (take 3 (fst (crawl_finna 20 demo_env demo_cfg resume_disk)))) \<longrightarrow>
          content (after_kill (replay (take 3 (fst (crawl_finna 20 demo_env demo_cfg resume_disk))) resume_disk) StatusF) = Some []"
    by simp
  moreover have "\<forall>s. Write StatusF s \<notin> set (take 3 (fst (crawl_finna 20 demo_env demo_cfg resume_disk)))"
    unfolding t by simp
  ultimately have "content (after_kill (replay (take 3 (fst (crawl_finna 20 demo_env demo_cfg resume_disk))) resume_disk) StatusF) = Some []"
    by blast
  with c s l t show ?thesis by blast
qed

section \<open>Starting without a checkpoint\<close>

lemma load_status_empty: "load_status (Some []) = Inr None"
  by (simp add: load_status_def rstrip_def)

lemma replay_agree:
  "d1 f = d2 f \<Longrightarrow> replay evs d1 f = replay evs d2 f"
proof (induction evs arbitrary: d1 d2)
  case Nil
  then show ?case by (simp add: replay_Nil)
next
  case (Cons e es)
  from Cons.prems have "apply_event e d1 f = apply_event e d2 f"
    by (cases e) auto
  then show ?case unfolding replay_Cons by (rule Cons.IH)
qed

text \<open>
  C6. A missing status file and an empty one load to the same "no prior state", and the two
  runs are the same event for event and end the same way, whatever the server, the
  configuration and the other files. When the run opens its files (a metadata prefix and
  the metadata sink are given), the files are also the same afterwards.
\<close>

theorem empty_status_like_missing:
  "load_status None = Inr None \<and> load_status (Some []) = Inr None
   \<and> crawl_finna fuel env cfg (d(StatusF := st\<lparr>content := None\<rparr>))
       = crawl_finna fuel env cfg (d(StatusF := st\<lparr>content := Some []\<rparr>))
   \<and> (metadata_prefix cfg \<noteq> None \<and> metadata_output cfg \<noteq> None \<longrightarrow>
        replay (fst (crawl_finna fuel env cfg (d(StatusF := st\<lparr>content := None\<rparr>))))
               (d(StatusF := st\<lparr>content := None\<rparr>))
        = replay (fst (crawl_finna fuel env cfg (d(StatusF := st\<lparr>content := Some []\<rparr>))))
               (d(StatusF := st\<lparr>content := Some []\<rparr>)))"
proof -
  let ?d1 = "d(StatusF := st\<lparr>content := None\<rparr>)"
  let ?d2 = "d(StatusF := st\<lparr>content := Some []\<rparr>)"
  have l1: "load_status None = Inr None" by (simp add: load_status_def)
  have h: "header_events env cfg ?d1 = header_events env cfg ?d2" by (simp add: header_events_def)
  have c: "crawl_finna fuel env cfg ?d1 = crawl_finna fuel env cfg ?d2"
    by (simp add: crawl_finna_def l1 load_status_empty h cong: option.case_cong if_cong)
  have r: "replay (fst (crawl_finna fuel env cfg ?d1)) ?d1 = replay (fst (crawl_finna fuel env cfg ?d2)) ?d2"
    if "metadata_prefix cfg \<noteq> None" "metadata_output cfg \<noteq> None"
  proof -
    from that obtain p where p: "metadata_prefix cfg = Some p" by auto
    have "load_status (content (?d2 StatusF)) = Inr None" by (simp add: load_status_empty)
    from crawl_trace_shape [where d = ?d2, OF p that(2) this] obtain rest0 where
      "fst (crawl_finna fuel env cfg ?d2)
         = header_events env cfg ?d2 @ open_events env cfg @ fst (harvest fuel env cfg p None) @ rest0"
      by blast
    then obtain rest where t: "fst (crawl_finna fuel env cfg ?d2)
         = header_events env cfg ?d2 @ OpenW StatusF # rest"
      by (simp add: open_events_def)
    let ?h = "header_events env cfg ?d2"
    have "apply_event (OpenW StatusF) (replay ?h ?d1) f = apply_event (OpenW StatusF) (replay ?h ?d2) f" for f
    proof (cases "f = StatusF")
      case True
      have "event_file e \<noteq> Some StatusF \<Longrightarrow> apply_event e x StatusF = x StatusF" for e x
        by (rule apply_event_other)
      have s: "replay ?h x StatusF = x StatusF" for x
        by (simp add: header_events_def replay_Cons replay_Nil)
      from True show ?thesis by (simp add: s)
    next
      case False
      then have "replay ?h ?d1 f = replay ?h ?d2 f" by (intro replay_agree) simp
      with False show ?thesis by simp
    qed
    then have "apply_event (OpenW StatusF) (replay ?h ?d1) = apply_event (OpenW StatusF) (replay ?h ?d2)"
      by (rule ext)
    then show ?thesis
      unfolding c t by (simp add: replay_append replay_Cons)
  qed
  from l1 load_status_empty c r show ?thesis by blast
qed

theorem empty_status_like_missing_witness:
  "metadata_prefix demo_cfg = Some ''oai_dc'' \<and> metadata_output demo_cfg = Some ''m.tsv''
   \<and> content (missing_status_disk StatusF) = None \<and> content (empty_status_disk StatusF) = Some []
   \<and> crawl_finna 20 demo_env demo_cfg missing_status_disk
       = crawl_finna 20 demo_env demo_cfg empty_status_disk
   \<and> replay (fst (crawl_finna 20 demo_env demo_cfg missing_status_disk)) missing_status_disk
       = replay (fst (crawl_finna 20 demo_env demo_cfg empty_status_disk)) empty_status_disk
   \<and> Yield (demo_record ''r1'') \<in> set (fst (crawl_finna 20 demo_env demo_cfg empty_status_disk))"
proof -
  let ?st = "closed_file None"
  have m: "missing_status_disk = fresh_disk(StatusF := ?st\<lparr>content := None\<rparr>)"
    by (simp add: missing_status_disk_def closed_file_def)
  have e: "empty_status_disk = fresh_disk(StatusF := ?st\<lparr>content := Some []\<rparr>)"
    by (simp add: empty_status_disk_def)
  have c: "metadata_prefix demo_cfg = Some ''oai_dc''" "metadata_output demo_cfg = Some ''m.tsv''"
    by (simp_all add: demo_cfg_def)
  have f: "content (missing_status_disk StatusF) = None" "content (empty_status_disk StatusF) = Some []"
    by (simp_all add: missing_status_disk_def empty_status_disk_def closed_file_def)
  have y: "Yield (demo_record ''r1'') \<in> set (fst (crawl_finna 20 demo_env demo_cfg empty_status_disk))"
    by code_simp
  have c': "metadata_prefix demo_cfg \<noteq> None \<and> metadata_output demo_cfg \<noteq> None"
    by (simp add: demo_cfg_def)
  note T = empty_status_like_missing [of 20 demo_env demo_cfg fresh_disk ?st]
  from T have a: "crawl_finna 20 demo_env demo_cfg missing_status_disk
       = crawl_finna 20 demo_env demo_cfg empty_status_disk"
    unfolding m e by blast
  from T c' have b: "replay (fst (crawl_finna 20 demo_env demo_cfg missing_status_disk)) missing_status_disk
       = replay (fst (crawl_finna 20 demo_env demo_cfg empty_status_disk)) empty_status_disk"
    unfolding m e by blast
  from a b c f y show ?thesis by blast
qed

section \<open>Resuming from a checkpoint\<close>

text \<open>
  C8, evaluated on a resume from the status line \<open>t2/2/5/\<close>: the checkpoint names the third
  and last page of the listing, and the stored list size (5) differs from the fresh one
  (4). The warning is logged and the page of the stored token is requested, as the claim
  says. The server's answer holds the record \<open>r4\<close> and, being the last page, no resumption
  token; line 114 then reads \<open>records.resumption_token.cursor\<close>, and the run ends with
  \<open>AttributeError\<close> before any record is handed to the loop body: \<open>r4\<close> is never written,
  and the status file is left empty. From the status line \<open>t1/0/5/\<close>, which names the
  second page, the same warning is logged and the harvest goes on to the end.
\<close>

theorem resume_at_last_page_crashes:
  "load_status (content (last_page_disk StatusF)) = Inr (Some (loaded_token ''t2'' ''2'' ''5''))
   \<and> server demo_env (ListRecords ''oai_dc'' None)
       = Inr ([demo_record ''r1'', demo_record ''r2''], Some (demo_token ''t1'' ''0''))
   \<and> complete_list_size (demo_token ''t1'' ''0'') = Some ''4''
   \<and> server demo_env (Resumption (Some ''t2'')) = Inr ([demo_record ''r4''], None)
   \<and> crawl_finna 20 demo_env demo_cfg last_page_disk
       = ([OpenW StatusF, XopenA MetadataF False, XopenA RecordF False,
           Request (ListRecords ''oai_dc'' None), LogWarning (Some ''5'') (Some ''4''),
           Request (Resumption (Some ''t2'')),
           Close RecordF, Close MetadataF, Close StatusF], Crashed AttributeError)
   \<and> content (replay (fst (crawl_finna 20 demo_env demo_cfg last_page_disk)) last_page_disk RecordF)
       = Some []
   \<and> content (replay (fst (crawl_finna 20 demo_env demo_cfg last_page_disk)) last_page_disk StatusF)
       = Some []
   \<and> load_status (content (drift_disk StatusF)) = Inr (Some (loaded_token ''t1'' ''0'' ''5''))
   \<and> snd (crawl_finna 20 demo_env demo_cfg drift_disk) = Returned
   \<and> take 6 (fst (crawl_finna 20 demo_env demo_cfg drift_disk))
       = [OpenW StatusF, XopenA MetadataF False, XopenA RecordF False,
          Request (ListRecords ''oai_dc'' None), LogWarning (Some ''5'') (Some ''4''),
          Request (Resumption (Some ''t1''))]
   \<and> content (replay (fst (crawl_finna 20 demo_env demo_cfg drift_disk)) drift_disk RecordF)
       = Some (text_lines [''r3'', ''r4''])"
  by code_simp

text \<open>
  C1, evaluated on a listing of three pages (two records, then one, then one). The
  uninterrupted run writes the four records. The process is killed right after the
  checkpoint of the first record is synced: the status file then holds the token of the
  page in progress, which names the next page. The restarted run finishes normally, but
  its record stream holds the first, third and fourth record only; the second record, the
  rest of the interrupted page, is never written, and the metadata table differs from
  that of the uninterrupted run as well.
\<close>

theorem resume_after_kill_skips_records:
  "snd (crawl_finna 20 demo_env demo_cfg fresh_disk) = Returned
   \<and> content (replay (fst (crawl_finna 20 demo_env demo_cfg fresh_disk)) fresh_disk RecordF)
       = Some (text_lines [''r1'', ''r2'', ''r3'', ''r4''])
   \<and> content (killed_disk StatusF) = Some ''t1/0/4/''
   \<and> content (killed_disk RecordF) = Some (text_lines [''r1''])
   \<and> snd (crawl_finna 20 demo_env demo_cfg killed_disk) = Returned
   \<and> content (replay (fst (crawl_finna 20 demo_env demo_cfg killed_disk)) killed_disk RecordF)
       = Some (text_lines [''r1'', ''r3'', ''r4''])
   \<and> content (replay (fst (crawl_finna 20 demo_env demo_cfg killed_disk)) killed_disk MetadataF)
       \<noteq> content (replay (fst (crawl_finna 20 demo_env demo_cfg fresh_disk)) fresh_disk MetadataF)"
  by code_simp

section \<open>The end of a run\<close>

text \<open>
  C2, evaluated on the same listing when the request for the second page fails with
  \<open>HTTPError\<close>. The failure is logged and the command returns; after the second record
  the status file held the resume position \<open>t1/0/4/\<close>, but line 162 runs after the
  \<open>except\<close> clause too, and the run ends with an empty status file.
\<close>

theorem abort_truncates_checkpoint:
  "crawl_finna 20 abort_env demo_cfg fresh_disk
     = (upto_commit 2 (fst (crawl_finna 20 abort_env demo_cfg fresh_disk))
        @ [Request (Resumption (Some ''t1'')), LogException HTTPError, Truncate0 StatusF,
           Close RecordF, Close MetadataF, Close StatusF], Returned)
   \<and> content (replay (upto_commit 2 (fst (crawl_finna 20 abort_env demo_cfg fresh_disk))) fresh_disk StatusF)
       = Some ''t1/0/4/''
   \<and> content (replay (fst (crawl_finna 20 abort_env demo_cfg fresh_disk)) fresh_disk StatusF)
       = Some []"
  by code_simp

section \<open>The sinks that are configured\<close>

text \<open>
  C7, evaluated with the record sink alone. Whatever the server answers, the run ends with
  \<open>TypeError\<close> on line 95, \<open>exists(metadata_output)\<close> for an absent path, before any request
  and before any file is opened.
\<close>

theorem record_sink_alone_crashes:
  "metadata_output record_only_cfg = None \<and> record_output record_only_cfg = Some ''r.xml''
   \<and> crawl_finna fuel env record_only_cfg fresh_disk = ([], Crashed TypeError)"
  by (simp add: crawl_finna_def record_only_cfg_def demo_cfg_def fresh_disk_def closed_file_def load_status_def)

section \<open>Durability before the checkpoint\<close>

text \<open>
  C3, evaluated with sinks that \<open>xopen\<close> compresses with \<open>bz2\<close>
  (\<open>--metadata-output m.tsv.bz2 --record-output r.xml.bz2\<close>). Up to the first commit point
  the events come in the order the claim asks for: the row and the text of \<open>r1\<close> are
  written, flushed and synced (lines 129, 130, 143 and 144) before the status file is
  touched. But a compressing handle keeps what it is given until it is closed: when the
  status file durably holds \<open>t1/0/4/\<close>, the record file on stable storage is empty and the
  metadata table holds its header only, and a kill at that point loses the output of \<open>r1\<close>.
  With plain sinks the record is on stable storage at the same point. Killed at the
  second commit point, the end of the first page, the run with plain sinks resumes to the
  full record stream; the run with compressed sinks resumes to a record stream without
  \<open>r1\<close> and \<open>r2\<close>.
\<close>

theorem compressed_sink_behind_checkpoint:
  "holds_until_close demo_env ''m.tsv.bz2'' \<and> holds_until_close demo_env ''r.xml.bz2''
   \<and> upto_commit 1 (fst (crawl_finna 20 demo_env bz2_cfg fresh_disk))
       = [XopenW MetadataF True, Write MetadataF (csv_row demo_env header_row), Close MetadataF,
          OpenW StatusF, XopenA MetadataF True, XopenA RecordF True,
          Request (ListRecords ''oai_dc'' None), Yield (demo_record ''r1''),
          Write MetadataF (csv_row demo_env (metadata_row (demo_record ''r1'') [(''title'', [Some ''r1''])])),
          Flush MetadataF, Fsync MetadataF,
          Write RecordF ''r1'', Write RecordF [CHR 0x0A], Flush RecordF, Fsync RecordF,
          Truncate0 StatusF, Seek0 StatusF, Write StatusF ''t1'', Write StatusF ''/'',
          Write StatusF ''0'', Write StatusF ''/'', Write StatusF ''4'', Write StatusF ''/'',
          Flush StatusF, Fsync StatusF]
   \<and> durable (commit_disk bz2_cfg 1 StatusF) = Some ''t1/0/4/''
   \<and> durable (commit_disk bz2_cfg 1 RecordF) = Some []
   \<and> content (commit_disk bz2_cfg 1 RecordF) = Some []
   \<and> held (commit_disk bz2_cfg 1 RecordF) = text_lines [''r1'']
   \<and> durable (commit_disk bz2_cfg 1 MetadataF) = Some (csv_row demo_env header_row)
   \<and> held (commit_disk bz2_cfg 1 MetadataF)
       = csv_row demo_env (metadata_row (demo_record ''r1'') [(''title'', [Some ''r1''])])
   \<and> content (after_kill (commit_disk bz2_cfg 1) RecordF) = Some []
   \<and> held (after_kill (commit_disk bz2_cfg 1) RecordF) = []
   \<and> durable (commit_disk demo_cfg 1 RecordF) = Some (text_lines [''r1''])
   \<and> durable (commit_disk demo_cfg 2 StatusF) = Some ''t1/0/4/''
   \<and> content (replay (fst (crawl_finna 20 demo_env demo_cfg (after_kill (commit_disk demo_cfg 2))))
                 (after_kill (commit_disk demo_cfg 2)) RecordF)
       = Some (text_lines [''r1'', ''r2'', ''r3'', ''r4''])
   \<and> durable (commit_disk bz2_cfg 2 StatusF) = Some ''t1/0/4/''
   \<and> snd (crawl_finna 20 demo_env bz2_cfg (after_kill (commit_disk bz2_cfg 2))) = Returned
   \<and> content (replay (fst (crawl_finna 20 demo_env bz2_cfg (after_kill (commit_disk bz2_cfg 2))))
                 (after_kill (commit_disk bz2_cfg 2)) RecordF)
       = Some (text_lines [''r3'', ''r4''])"
  by code_simp

end
